theory Spec2Isabelle
  imports Main
begin

section \<open>JavaScript values, arrays and the heap\<close>

text \<open>
  The cells of a matrix are JavaScript numbers. The model keeps \<open>NaN\<close> and the value
  \<open>undefined\<close> (what an out-of-range array read yields) and represents every other number
  by an exact integer; rounding, infinities and the sign of zero are outside the model.
  Arithmetic follows JavaScript: an operand that is \<open>undefined\<close> or \<open>NaN\<close> makes the
  result \<open>NaN\<close>.
\<close>

datatype jsval = Undefined | NaN | Num int

fun js_add :: "jsval \<Rightarrow> jsval \<Rightarrow> jsval" where
  "js_add (Num a) (Num b) = Num (a + b)"
| "js_add _ _ = NaN"

fun js_sub :: "jsval \<Rightarrow> jsval \<Rightarrow> jsval" where
  "js_sub (Num a) (Num b) = Num (a - b)"
| "js_sub _ _ = NaN"

fun js_mul :: "jsval \<Rightarrow> jsval \<Rightarrow> jsval" where
  "js_mul (Num a) (Num b) = Num (a * b)"
| "js_mul _ _ = NaN"

text \<open>\<open>xs[i]\<close> as an expression: \<open>undefined\<close> beyond the end of the array.\<close>

definition js_index :: "jsval list \<Rightarrow> nat \<Rightarrow> jsval" where
  "js_index xs i = (if i < length xs then xs ! i else Undefined)"

text \<open>
  \<open>xs[i] = v\<close>: a write beyond the end extends the array. The skipped positions are holes
  in JavaScript; they read as \<open>undefined\<close> and are represented so.
\<close>

definition js_store :: "jsval list \<Rightarrow> nat \<Rightarrow> jsval \<Rightarrow> jsval list" where
  "js_store xs i v =
     (if i < length xs then xs[i := v]
      else xs @ replicate (i - length xs) Undefined @ [v])"

text \<open>
  Arrays are objects with identity: two rows of a matrix may be one and the same array.
  The heap holds every array of numbers ever created, an address is a position in it, and
  \<open>new Array\<close>, an array literal and \<open>Array.prototype.map\<close> allocate at the end.
\<close>

type_synonym addr = nat
type_synonym heap = "jsval list list"

definition alloc :: "jsval list \<Rightarrow> heap \<Rightarrow> addr \<times> heap" where
  "alloc xs h = (length h, h @ [xs])"

datatype error = RangeError string | TypeError

section \<open>The class \<open>Matrix\<close>\<close>

text \<open>
  The field \<open>data\<close> is the outer array: the references to the row arrays, in order. The
  operations modelled here never write to the outer array (only \<open>permute\<close> and
  \<open>multiplyRow\<close> do), so it is kept as a value. Row and column indices are natural
  numbers; for any other number the \<open>in\<close> test of the source is false.
\<close>

datatype matrix = Matrix (data: "addr list")

text \<open>Every row reference of the matrix is an allocated array.\<close>

definition valid :: "matrix \<Rightarrow> heap \<Rightarrow> bool" where
  "valid this h = list_all (\<lambda>a. a < length h) (data this)"

definition rowCount :: "matrix \<Rightarrow> nat" where
  "rowCount this = length (data this)"

text \<open>\<open>this.data.at(0)!.length\<close>: reading \<open>length\<close> of \<open>undefined\<close> is a \<open>TypeError\<close>.\<close>

definition columnCount :: "matrix \<Rightarrow> heap \<Rightarrow> error + nat" where
  "columnCount this h =
     (case data this of [] \<Rightarrow> Inl TypeError | a # _ \<Rightarrow> Inr (length (h ! a)))"

definition get :: "matrix \<Rightarrow> nat \<Rightarrow> nat \<Rightarrow> heap \<Rightarrow> error + jsval" where
  "get this row column h =
     (if \<not> row < length (data this) then Inl (RangeError ''Out of bounds'')
      else if \<not> column < length (h ! (data this ! row)) then Inl (RangeError ''Out of bounds'')
      else Inr (h ! (data this ! row) ! column))"

text \<open>\<open>put\<close> returns \<open>this\<close>; the model returns the heap after the write.\<close>

definition put :: "matrix \<Rightarrow> nat \<Rightarrow> nat \<Rightarrow> jsval \<Rightarrow> heap \<Rightarrow> error + heap" where
  "put this row column v h =
     (if \<not> row < length (data this) then Inl (RangeError ''Out of bounds'')
      else if \<not> column < length (h ! (data this ! row)) then Inl (RangeError ''Out of bounds'')
      else Inr (h[data this ! row := (h ! (data this ! row))[column := v]]))"

text \<open>
  \<open>forEach\<close>: both loop tests read \<open>rowCount\<close> and \<open>columnCount\<close> afresh, and the callback may
  change the heap and may throw, so the loops are partial functions: \<open>None\<close> is a loop that
  never ends.
\<close>

partial_function (option) forEach_columns ::
  "matrix \<Rightarrow> (jsval \<Rightarrow> nat \<Rightarrow> nat \<Rightarrow> heap \<Rightarrow> error + heap) \<Rightarrow> nat \<Rightarrow> nat \<Rightarrow> heap
     \<Rightarrow> (error + heap) option"
where
  "forEach_columns this callback x y h =
     (case columnCount this h of
        Inl e \<Rightarrow> Some (Inl e)
      | Inr n \<Rightarrow>
          if y < n then
            (case get this x y h of
               Inl e \<Rightarrow> Some (Inl e)
             | Inr v \<Rightarrow>
                 (case callback v x y h of
                    Inl e \<Rightarrow> Some (Inl e)
                  | Inr h' \<Rightarrow> forEach_columns this callback x (y + 1) h'))
          else Some (Inr h))"

partial_function (option) forEach_rows ::
  "matrix \<Rightarrow> (jsval \<Rightarrow> nat \<Rightarrow> nat \<Rightarrow> heap \<Rightarrow> error + heap) \<Rightarrow> nat \<Rightarrow> heap
     \<Rightarrow> (error + heap) option"
where
  "forEach_rows this callback x h =
     (if x < rowCount this then
        (case forEach_columns this callback x 0 h of
           None \<Rightarrow> None
         | Some (Inl e) \<Rightarrow> Some (Inl e)
         | Some (Inr h') \<Rightarrow> forEach_rows this callback (x + 1) h')
      else Some (Inr h))"

declare forEach_columns.simps [code]
declare forEach_rows.simps [code]

definition forEach ::
  "matrix \<Rightarrow> (jsval \<Rightarrow> nat \<Rightarrow> nat \<Rightarrow> heap \<Rightarrow> error + heap) \<Rightarrow> heap \<Rightarrow> (error + heap) option"
where
  "forEach this callback h = forEach_rows this callback 0 h"

text \<open>
  \<open>Matrix.empty\<close>: \<open>new Array(rows).fill(new Array(columns).fill(0))\<close>. The argument of the
  outer \<open>fill\<close> is evaluated once, so one array is allocated and every position of the
  outer array refers to it. The dimensions are natural numbers (\<open>new Array\<close> throws on
  anything else).
\<close>

definition empty_matrix :: "nat \<Rightarrow> nat \<Rightarrow> heap \<Rightarrow> matrix \<times> heap" where
  "empty_matrix rows columns h =
     (case alloc (replicate columns (Num 0)) h of
        (a, h') \<Rightarrow> (Matrix (replicate rows a), h'))"

text \<open>
  \<open>map\<close>: the callback of the source is a function of the value and its coordinates; it may
  read the heap (the one of \<open>add\<close> calls \<open>get\<close>) and may throw. The closure handed to
  \<open>forEach\<close> evaluates it and then calls \<open>id.put\<close>; \<open>id\<close> is written \<open>idm\<close> here.
\<close>

definition map_closure ::
  "matrix \<Rightarrow> (jsval \<Rightarrow> nat \<Rightarrow> nat \<Rightarrow> heap \<Rightarrow> error + jsval)
     \<Rightarrow> jsval \<Rightarrow> nat \<Rightarrow> nat \<Rightarrow> heap \<Rightarrow> error + heap"
where
  "map_closure idm callback v x y h =
     (case callback v x y h of
        Inl e \<Rightarrow> Inl e
      | Inr w \<Rightarrow> put idm x y w h)"

definition map_matrix ::
  "matrix \<Rightarrow> (jsval \<Rightarrow> nat \<Rightarrow> nat \<Rightarrow> heap \<Rightarrow> error + jsval) \<Rightarrow> heap
     \<Rightarrow> (error + matrix \<times> heap) option"
where
  "map_matrix this callback h =
     (case columnCount this h of
        Inl e \<Rightarrow> Some (Inl e)
      | Inr n \<Rightarrow>
          (case empty_matrix (rowCount this) n h of
             (idm, h0) \<Rightarrow>
               (case forEach this (map_closure idm callback) h0 of
                  None \<Rightarrow> None
                | Some (Inl e) \<Rightarrow> Some (Inl e)
                | Some (Inr h1) \<Rightarrow> Some (Inr (idm, h1)))))"

text \<open>
  \<open>add\<close>: the size test short-circuits, so \<open>columnCount\<close> is read only when the row counts
  agree. The matrix that is mapped is the fresh \<open>id\<close>, not \<open>this\<close>.
\<close>

definition add :: "matrix \<Rightarrow> matrix \<Rightarrow> heap \<Rightarrow> (error + matrix \<times> heap) option" where
  "add this matrix h =
     (if rowCount this \<noteq> rowCount matrix
      then Some (Inl (RangeError ''Matricies must be the same size''))
      else
        (case columnCount this h of
           Inl e \<Rightarrow> Some (Inl e)
         | Inr n \<Rightarrow>
             (case columnCount matrix h of
                Inl e \<Rightarrow> Some (Inl e)
              | Inr n' \<Rightarrow>
                  if n \<noteq> n' then Some (Inl (RangeError ''Matricies must be the same size''))
                  else
                    (case empty_matrix (rowCount this) n h of
                       (idm, h0) \<Rightarrow>
                         map_matrix idm
                           (\<lambda>v x y h'. case get matrix x y h' of
                                          Inl e \<Rightarrow> Inl e
                                        | Inr b \<Rightarrow> Inr (js_add v b)) h0))))"

definition scalar :: "matrix \<Rightarrow> jsval \<Rightarrow> heap \<Rightarrow> (error + matrix \<times> heap) option" where
  "scalar this v h = map_matrix this (\<lambda>content x y h'. Inr (js_mul v content)) h"

text \<open>\<open>row\<close> returns the reference stored in the outer array, \<open>undefined\<close> (here \<open>None\<close>)
  when there is none.\<close>

definition row :: "matrix \<Rightarrow> nat \<Rightarrow> addr option" where
  "row this n = (if n < length (data this) then Some (data this ! n) else None)"

text \<open>\<open>column\<close>: \<open>this.data.map((x) => x[column])\<close> allocates a new array.\<close>

definition column :: "matrix \<Rightarrow> nat \<Rightarrow> heap \<Rightarrow> addr \<times> heap" where
  "column this n h = alloc (map (\<lambda>a. js_index (h ! a) n) (data this)) h"

text \<open>
  \<open>multiply\<close>: the three counted loops. The bounds \<open>ar\<close>, \<open>ac\<close> and \<open>bc\<close> are read once, every
  row of the result is a new array, and the cell starts at 0 and accumulates in ascending
  order of \<open>i\<close>. The reads go to the operands' rows, which the writes to the new rows cannot
  reach.
\<close>

definition multiply_cell :: "matrix \<Rightarrow> matrix \<Rightarrow> heap \<Rightarrow> nat \<Rightarrow> nat \<Rightarrow> nat \<Rightarrow> jsval" where
  "multiply_cell this matrix h ac r c =
     foldl (\<lambda>acc i. js_add acc (js_mul (js_index (h ! (data this ! r)) i)
                                       (js_index (h ! (data matrix ! i)) c)))
       (Num 0) [0..<ac]"

definition multiply_row :: "matrix \<Rightarrow> matrix \<Rightarrow> heap \<Rightarrow> nat \<Rightarrow> nat \<Rightarrow> nat \<Rightarrow> jsval list" where
  "multiply_row this matrix h ac bc r = map (multiply_cell this matrix h ac r) [0..<bc]"

definition multiply :: "matrix \<Rightarrow> matrix \<Rightarrow> heap \<Rightarrow> error + matrix \<times> heap" where
  "multiply this matrix h =
     (case columnCount this h of
        Inl e \<Rightarrow> Inl e
      | Inr ac \<Rightarrow>
          if ac \<noteq> rowCount matrix
          then Inl (RangeError ''Matricies are ineligible for multiplication'')
          else
            (case columnCount matrix h of
               Inl e \<Rightarrow> Inl e
             | Inr bc \<Rightarrow>
                 Inr (Matrix [length h ..< length h + rowCount this],
                      h @ map (multiply_row this matrix h ac bc) [0..<rowCount this])))"

definition determinant :: "matrix \<Rightarrow> heap \<Rightarrow> error + jsval" where
  "determinant this h =
     (case columnCount this h of
        Inl e \<Rightarrow> Inl e
      | Inr n \<Rightarrow>
          if rowCount this \<noteq> n then Inl (RangeError ''Matrix must be square'')
          else if rowCount this = 0 then Inr NaN
          else if rowCount this = 1 then get this 0 0 h
          else if rowCount this = 2 then
            (case get this 0 0 h of Inl e \<Rightarrow> Inl e | Inr a \<Rightarrow>
            (case get this 1 1 h of Inl e \<Rightarrow> Inl e | Inr d \<Rightarrow>
            (case get this 0 1 h of Inl e \<Rightarrow> Inl e | Inr b \<Rightarrow>
            (case get this 1 0 h of Inl e \<Rightarrow> Inl e | Inr c \<Rightarrow>
               Inr (js_sub (js_mul a d) (js_mul b c))))))
          else Inr (Num 0))"

text \<open>
  \<open>pow\<close>: \<open>while (--amount)\<close> decrements first and goes on while the new value is not 0.
  The amount is an integer. The loop need not end, so it is a partial function.
\<close>

partial_function (option) pow_loop ::
  "matrix \<Rightarrow> matrix \<Rightarrow> int \<Rightarrow> heap \<Rightarrow> (error + matrix \<times> heap) option"
where
  "pow_loop this idm amount h =
     (if amount - 1 \<noteq> 0 then
        (case multiply idm this h of
           Inl e \<Rightarrow> Some (Inl e)
         | Inr (idm', h') \<Rightarrow> pow_loop this idm' (amount - 1) h')
      else Some (Inr (idm, h)))"

declare pow_loop.simps [code]

definition pow :: "matrix \<Rightarrow> int \<Rightarrow> heap \<Rightarrow> (error + matrix \<times> heap) option" where
  "pow this amount h =
     (case columnCount this h of
        Inl e \<Rightarrow> Some (Inl e)
      | Inr n \<Rightarrow>
          if rowCount this \<noteq> n then Some (Inl (RangeError ''Matricies must be square''))
          else pow_loop this this amount h)"

definition identity :: "nat \<Rightarrow> heap \<Rightarrow> (error + matrix \<times> heap) option" where
  "identity n h =
     (case empty_matrix n n h of
        (idm, h0) \<Rightarrow> map_matrix idm (\<lambda>_ x y h'. Inr (if x = y then Num 1 else Num 0)) h0)"

text \<open>
  \<open>addRow\<close>: \<open>byRowxFactor\<close> is a new array that never escapes, so it is a local value. The
  loop reads and writes the manipulated row in the heap; a missing source row is a
  \<open>TypeError\<close> at \<open>.map\<close>, a missing manipulated row is one at the first write.
\<close>

definition addRow_step :: "addr \<Rightarrow> jsval list \<Rightarrow> nat \<Rightarrow> heap \<Rightarrow> heap" where
  "addRow_step a byRowxFactor i h =
     h[a := js_store (h ! a) i (js_add (js_index (h ! a) i) (js_index byRowxFactor i))]"

definition addRow :: "matrix \<Rightarrow> nat \<Rightarrow> nat \<Rightarrow> jsval \<Rightarrow> heap \<Rightarrow> error + heap" where
  "addRow this manipulated r2 multiplyfact h =
     (case row this r2 of
        None \<Rightarrow> Inl TypeError
      | Some a2 \<Rightarrow>
          (let byRowxFactor = map (\<lambda>n. js_mul n multiplyfact) (h ! a2) in
           (case row this manipulated of
              None \<Rightarrow> if 0 < length byRowxFactor then Inl TypeError else Inr h
            | Some a \<Rightarrow> Inr (fold (addRow_step a byRowxFactor) [0..<length byRowxFactor] h))))"

text \<open>The whole contents of a matrix, read row by row through its references.\<close>

definition contents :: "matrix \<Rightarrow> heap \<Rightarrow> jsval list list" where
  "contents this h = map (\<lambda>a. h ! a) (data this)"

section \<open>Predicates and functions of the specification\<close>

text \<open>
  The heap \<open>h'\<close> has the arrays of \<open>h\<close> with their lengths: what a callback that only
  writes to existing cells keeps.
\<close>

definition same_shape :: "heap \<Rightarrow> heap \<Rightarrow> bool" where
  "same_shape h h' = (\<forall>a. length (h' ! a) = length (h ! a))"

text \<open>Every row reference of the matrix is the same array.\<close>

definition rows_are_one_array :: "matrix \<Rightarrow> bool" where
  "rows_are_one_array m = (case data m of [] \<Rightarrow> True | a # as \<Rightarrow> list_all (\<lambda>b. b = a) as)"

text \<open>
  The power as the specification words it: starting from \<open>idm\<close>, multiply by \<open>this\<close> on the
  right \<open>k\<close> times, stopping at the first error.
\<close>

fun multiply_times :: "nat \<Rightarrow> matrix \<Rightarrow> matrix \<Rightarrow> heap \<Rightarrow> error + matrix \<times> heap" where
  "multiply_times 0 this idm h = Inr (idm, h)"
| "multiply_times (Suc k) this idm h =
     (case multiply idm this h of
        Inl e \<Rightarrow> Inl e
      | Inr (idm', h') \<Rightarrow> multiply_times k this idm' h')"

text \<open>One pass of the loop body of \<open>addRow\<close>, on the manipulated row itself.\<close>

definition addRow_cell :: "jsval list \<Rightarrow> nat \<Rightarrow> jsval list \<Rightarrow> jsval list" where
  "addRow_cell byRowxFactor i xs = js_store xs i (js_add (js_index xs i) (js_index byRowxFactor i))"

section \<open>Reading and writing cells\<close>

lemma nth_heap_update:
  "h[a := xs] ! b = (if a = b \<and> a < length h then xs else h ! b)"
  by (cases "a < length h") (auto simp: nth_list_update list_update_beyond)

text \<open>Allocation does not disturb a matrix whose rows are allocated.\<close>

lemma valid_nth: "valid this h \<Longrightarrow> x < rowCount this \<Longrightarrow> data this ! x < length h"
  by (simp add: valid_def rowCount_def list_all_length)

lemma get_append:
  assumes "valid this h"
  shows "get this x y (h @ rows) = get this x y h"
  using valid_nth[OF assms, of x] by (auto simp: get_def nth_append rowCount_def)

lemma columnCount_append:
  assumes "valid this h"
  shows "columnCount this (h @ rows) = columnCount this h"
  using assms by (cases "data this") (simp_all add: columnCount_def valid_def nth_append)

lemma valid_append: "valid this h \<Longrightarrow> valid this (h @ rows)"
  by (auto simp: valid_def list_all_iff)

text \<open>A write to an allocated, in-bounds cell is read back.\<close>

lemma get_put_same:
  assumes "r < length (data this)" and "c < length (h ! (data this ! r))"
    and "data this ! r < length h"
  shows "\<exists>h'. put this r c v h = Inr h' \<and> get this r c h' = Inr v"
  using assms by (simp add: put_def get_def)

text \<open>A cell in another column, or in a row stored in another array, keeps its value.\<close>

lemma get_put_other:
  assumes "put this r c v h = Inr h'"
    and "data this ! r2 \<noteq> data this ! r \<or> c2 \<noteq> c"
  shows "get this r2 c2 h' = get this r2 c2 h"
  using assms
  by (auto simp: put_def get_def nth_heap_update nth_list_update split: if_splits)

text \<open>
  Claim C1: for every matrix, also one returned by \<open>Matrix.empty\<close>, \<open>put(r,c,v)\<close> followed
  by \<open>get(r,c)\<close> returns \<open>v\<close> and every other cell keeps its value. The code breaks the
  second half on \<open>Matrix.empty(2, 1)\<close>: its two rows are one array, so after \<open>put(0, 0, 5)\<close>
  the cell (1,0), which held 0, holds 5 as well.
\<close>

theorem put_on_empty_writes_every_row:
  "(case empty_matrix 2 1 [] of
      (m, h) \<Rightarrow>
        (get m 1 0 h,
         case put m 0 0 (Num 5) h of
           Inl e \<Rightarrow> None
         | Inr h' \<Rightarrow> Some (get m 0 0 h', get m 1 0 h')))
   = (Inr (Num 0), Some (Inr (Num 5), Inr (Num 5)))"
  by (simp add: empty_matrix_def alloc_def get_def put_def)

section \<open>\<open>forEach\<close> and \<open>map\<close> return\<close>

lemma same_shape_refl: "same_shape h h"
  by (simp add: same_shape_def)

lemma same_shape_trans: "same_shape h h' \<Longrightarrow> same_shape h' h'' \<Longrightarrow> same_shape h h''"
  by (simp add: same_shape_def)

lemma columnCount_same_shape: "same_shape h h' \<Longrightarrow> columnCount this h' = columnCount this h"
  by (simp add: same_shape_def columnCount_def split: list.split)

lemma put_same_shape: "put idm x y w h = Inr h' \<Longrightarrow> same_shape h h'"
  by (auto simp: put_def same_shape_def nth_heap_update split: if_splits)

lemma map_closure_same_shape: "map_closure idm callback v x y h = Inr h' \<Longrightarrow> same_shape h h'"
  by (auto simp: map_closure_def put_same_shape split: sum.splits)

lemma forEach_columns_returns:
  assumes cb: "\<And>v x y h h'. cb v x y h = Inr h' \<Longrightarrow> same_shape h h'"
  shows "\<exists>res. forEach_columns this cb x y h = Some res
           \<and> (\<forall>h'. res = Inr h' \<longrightarrow> same_shape h h')"
proof (cases "columnCount this h")
  case (Inl e)
  then show ?thesis by (subst forEach_columns.simps) simp
next
  case (Inr n)
  then show ?thesis
  proof (induction "n - y" arbitrary: y h)
    case 0
    then show ?case
      by (subst forEach_columns.simps) (simp add: same_shape_refl)
  next
    case (Suc k)
    then have y: "y < n" by simp
    show ?case
    proof (cases "get this x y h")
      case (Inl e)
      with Suc.prems y show ?thesis by (subst forEach_columns.simps) simp
    next
      case v: (Inr v)
      show ?thesis
      proof (cases "cb v x y h")
        case (Inl e)
        with Suc.prems y v show ?thesis by (subst forEach_columns.simps) simp
      next
        case h': (Inr h')
        have sh: "same_shape h h'" using h' by (rule cb)
        have "k = n - (y + 1)" using Suc.hyps(2) by simp
        moreover have "columnCount this h' = Inr n"
          using sh Suc.prems by (simp add: columnCount_same_shape)
        ultimately obtain res where
          res: "forEach_columns this cb x (y + 1) h' = Some res"
            "\<forall>h''. res = Inr h'' \<longrightarrow> same_shape h' h''"
          using Suc.hyps(1) by blast
        have "forEach_columns this cb x y h = Some res"
          using Suc.prems y v h' res(1) by (subst forEach_columns.simps) simp
        with res(2) sh show ?thesis by (blast intro: same_shape_trans)
      qed
    qed
  qed
qed

lemma forEach_rows_returns:
  assumes cb: "\<And>v x y h h'. cb v x y h = Inr h' \<Longrightarrow> same_shape h h'"
  shows "\<exists>res. forEach_rows this cb x h = Some res"
proof (induction "rowCount this - x" arbitrary: x h)
  case 0
  then show ?case by (subst forEach_rows.simps) simp
next
  case (Suc k)
  then have x: "x < rowCount this" by simp
  have "\<exists>res. forEach_columns this cb x 0 h = Some res
           \<and> (\<forall>h'. res = Inr h' \<longrightarrow> same_shape h h')"
    by (rule forEach_columns_returns) (rule cb)
  then obtain res where res: "forEach_columns this cb x 0 h = Some res"
    by blast
  show ?case
  proof (cases res)
    case (Inl e)
    with x res show ?thesis by (subst forEach_rows.simps) simp
  next
    case (Inr h')
    have "k = rowCount this - (x + 1)" using Suc.hyps(2) by simp
    then obtain res' where "forEach_rows this cb (x + 1) h' = Some res'"
      using Suc.hyps(1) by blast
    with x res Inr show ?thesis by (subst forEach_rows.simps) simp
  qed
qed

lemma map_matrix_returns: "\<exists>res. map_matrix this callback h = Some res"
proof (cases "columnCount this h")
  case (Inl e)
  then show ?thesis by (simp add: map_matrix_def)
next
  case (Inr n)
  obtain idm h0 where e: "empty_matrix (rowCount this) n h = (idm, h0)"
    by (cases "empty_matrix (rowCount this) n h")
  have "\<exists>res. forEach_rows this (map_closure idm callback) 0 h0 = Some res"
    by (rule forEach_rows_returns) (rule map_closure_same_shape)
  then obtain res where "forEach_rows this (map_closure idm callback) 0 h0 = Some res"
    by blast
  with Inr e show ?thesis
    by (cases res) (simp_all add: map_matrix_def forEach_def)
qed

lemma map_matrix_rows:
  assumes "map_matrix this callback h = Some (Inr (m', h'))"
  shows "data m' = replicate (rowCount this) (length h)"
  using assms
  by (auto simp: map_matrix_def empty_matrix_def alloc_def split: sum.splits option.splits)

lemma scalar_returns: "\<exists>res. scalar this v h = Some res"
  by (simp add: scalar_def map_matrix_returns)

lemma identity_returns: "\<exists>res. identity n h = Some res"
  by (simp add: identity_def map_matrix_returns split: prod.split)

lemma add_returns: "\<exists>res. add this matrix h = Some res"
  by (simp add: add_def map_matrix_returns split: prod.split sum.split)

lemma rows_are_one_array_replicate: "rows_are_one_array (Matrix (replicate n a))"
  by (cases n) (simp_all add: rows_are_one_array_def list_all_iff)

lemma rows_are_one_array_nth:
  assumes "rows_are_one_array m" and "r1 < rowCount m" and "r2 < rowCount m"
  shows "data m ! r1 = data m ! r2"
proof -
  obtain a as where d: "data m = a # as" using assms(2) by (cases "data m") (simp_all add: rowCount_def)
  have "\<forall>b\<in>set (data m). b = a" using assms(1) d by (simp add: rows_are_one_array_def list_all_iff)
  then have "data m ! r1 = a" and "data m ! r2 = a"
    using assms(2,3) nth_mem by (auto simp: rowCount_def)
  then show ?thesis by simp
qed

lemma built_on_empty:
  assumes "map_matrix this callback g = Some (Inr (m', g'))
        \<or> scalar this k g = Some (Inr (m', g'))
        \<or> add this other g = Some (Inr (m', g'))
        \<or> identity n g = Some (Inr (m', g'))"
  shows "\<exists>rows a. m' = Matrix (replicate rows a)"
proof -
  have "\<exists>rows a. data m' = replicate rows a"
    using assms
    by (auto simp: scalar_def add_def identity_def empty_matrix_def alloc_def
             dest!: map_matrix_rows split: if_splits sum.splits)
  then show ?thesis by (cases m') auto
qed

text \<open>The two loops of \<open>forEach\<close> under the closure of \<open>map\<close>: each pass over a row overwrites the
  one new array.\<close>

lemma forEach_columns_map_closure:
  assumes v: "valid this h" and x: "x < rowCount this" and n: "columnCount this h = Inr n"
    and long: "n \<le> length (h ! (data this ! x))"
    and cb: "\<And>v y r. y < n \<Longrightarrow> callback v x y (h @ [r]) = Inr (f v y)"
    and r: "length r = n" and y: "y \<le> n"
  shows "forEach_columns this (map_closure (Matrix (replicate (rowCount this) (length h))) callback)
           x y (h @ [r])
         = Some (Inr (h @ [take y r @ map (\<lambda>y'. f (h ! (data this ! x) ! y') y') [y..<n]]))"
  using r y
proof (induction "n - y" arbitrary: y r)
  case 0
  then have "y = n" by simp
  with 0 n v show ?case
    by (subst forEach_columns.simps) (simp add: columnCount_append)
next
  case (Suc k)
  then have y: "y < n" by simp
  let ?w = "f (h ! (data this ! x) ! y) y"
  have g: "get this x y (h @ [r]) = Inr (h ! (data this ! x) ! y)"
    using v x y long by (simp add: get_append) (simp add: get_def rowCount_def)
  have c: "map_closure (Matrix (replicate (rowCount this) (length h))) callback
             (h ! (data this ! x) ! y) x y (h @ [r]) = Inr (h @ [r[y := ?w]])"
    using x y Suc.prems(1) by (simp add: map_closure_def cb put_def)
  have "k = n - (y + 1)" "length (r[y := ?w]) = n" "y + 1 \<le> n"
    using Suc.hyps(2) Suc.prems(1) y by simp_all
  from Suc.hyps(1)[OF this]
  have "forEach_columns this (map_closure (Matrix (replicate (rowCount this) (length h))) callback)
           x (y + 1) (h @ [r[y := ?w]])
         = Some (Inr (h @ [take (y + 1) (r[y := ?w])
                            @ map (\<lambda>y'. f (h ! (data this ! x) ! y') y') [y + 1..<n]]))" .
  moreover have "take (y + 1) (r[y := ?w]) = take y r @ [?w]"
    using y Suc.prems(1) by (simp add: take_Suc_conv_app_nth)
  moreover have "[y..<n] = y # [y + 1..<n]"
    using y by (simp add: upt_conv_Cons)
  ultimately show ?case
    using n v y g c by (subst forEach_columns.simps) (simp add: columnCount_append)
qed

lemma forEach_rows_map_closure:
  assumes v: "valid this h" and n: "columnCount this h = Inr n"
    and long: "\<And>x. x < rowCount this \<Longrightarrow> n \<le> length (h ! (data this ! x))"
    and cb: "\<And>v x y r. x < rowCount this \<Longrightarrow> y < n \<Longrightarrow> callback v x y (h @ [r]) = Inr (f v x y)"
    and r: "length r = n" and x: "x \<le> rowCount this"
  shows "forEach_rows this (map_closure (Matrix (replicate (rowCount this) (length h))) callback)
           x (h @ [r])
         = Some (Inr (h @ [if x < rowCount this
                           then map (\<lambda>y. f (h ! (data this ! (rowCount this - 1)) ! y)
                                            (rowCount this - 1) y) [0..<n]
                           else r]))"
  using r x
proof (induction "rowCount this - x" arbitrary: x r)
  case 0
  then show ?case by (subst forEach_rows.simps) simp
next
  case (Suc k)
  then have x: "x < rowCount this" by simp
  let ?r = "map (\<lambda>y. f (h ! (data this ! x) ! y) x y) [0..<n]"
  have cols: "forEach_columns this
                (map_closure (Matrix (replicate (rowCount this) (length h))) callback) x 0 (h @ [r])
              = Some (Inr (h @ [?r]))"
    using forEach_columns_map_closure[OF v x n long[OF x], of callback "\<lambda>v y. f v x y" r 0]
      cb[OF x] Suc.prems(1)
    by simp
  have "k = rowCount this - (x + 1)" "length ?r = n" "x + 1 \<le> rowCount this"
    using Suc.hyps(2) x by simp_all
  note ih = Suc.hyps(1)[OF this]
  show ?case
  proof (cases "x + 1 < rowCount this")
    case True
    with ih cols x show ?thesis
      by (subst forEach_rows.simps) simp
  next
    case False
    then have "x = rowCount this - 1" using x by simp
    with False ih cols x show ?thesis
      by (subst forEach_rows.simps) simp
  qed
qed

text \<open>
  What \<open>map\<close> returns on a matrix with allocated rows, each at least as long as row 0, for a
  callback that does not throw and does not depend on the contents of the new array: one
  new array, referred to by every row index, that holds the images of the last row.
\<close>

lemma map_matrix_last_row:
  assumes v: "valid this h" and n: "columnCount this h = Inr n"
    and long: "\<And>x. x < rowCount this \<Longrightarrow> n \<le> length (h ! (data this ! x))"
    and cb: "\<And>v x y r. x < rowCount this \<Longrightarrow> y < n \<Longrightarrow> callback v x y (h @ [r]) = Inr (f v x y)"
  shows "map_matrix this callback h
         = Some (Inr (Matrix (replicate (rowCount this) (length h)),
                      h @ [map (\<lambda>y. f (h ! (data this ! (rowCount this - 1)) ! y)
                                       (rowCount this - 1) y) [0..<n]]))"
proof -
  have rows: "0 < rowCount this"
    using n by (cases "data this") (simp_all add: columnCount_def rowCount_def)
  have "forEach_rows this (map_closure (Matrix (replicate (rowCount this) (length h))) callback)
           0 (h @ [replicate n (Num 0)])
         = Some (Inr (h @ [map (\<lambda>y. f (h ! (data this ! (rowCount this - 1)) ! y)
                                       (rowCount this - 1) y) [0..<n]]))"
    using rows
    by (subst forEach_rows_map_closure[where f = f and n = n]) (use v n long cb in simp_all)
  then show ?thesis
    using n by (simp add: map_matrix_def empty_matrix_def alloc_def forEach_def)
qed

text \<open>
  Claim C5: all rows of the matrix returned by \<open>Matrix.empty(rows, columns)\<close> are one shared
  array, so after \<open>put(r, c, v)\<close> on it \<open>get(r2, c)\<close> returns \<open>v\<close> for every row index \<open>r2\<close>;
  and every matrix built by \<open>map\<close>, and so by \<open>scalar\<close>, \<open>add\<close> and \<open>identity\<close>, has all its
  rows equal to each other: any two row indices give the same array and the same cells.
\<close>

theorem empty_rows_are_one_array:
  "(r < rows \<and> r2 < rows \<and> c < columns \<longrightarrow>
      (case empty_matrix rows columns h of
         (m, h0) \<Rightarrow>
           row m r = row m r2
           \<and> (\<exists>h1. put m r c v h0 = Inr h1 \<and> get m r2 c h1 = Inr v)))
   \<and> ((map_matrix this callback g = Some (Inr (m', g'))
        \<or> scalar this k g = Some (Inr (m', g'))
        \<or> add this other g = Some (Inr (m', g'))
        \<or> identity n g = Some (Inr (m', g')))
       \<longrightarrow> rows_are_one_array m'
           \<and> (r1 < rowCount m' \<and> r3 < rowCount m' \<longrightarrow>
                row m' r1 = row m' r3 \<and> get m' r1 c' g' = get m' r3 c' g'))"
proof -
  have first: "case empty_matrix rows columns h of
               (m, h0) \<Rightarrow>
                 row m r = row m r2
                 \<and> (\<exists>h1. put m r c v h0 = Inr h1 \<and> get m r2 c h1 = Inr v)"
    if "r < rows \<and> r2 < rows \<and> c < columns"
    using that by (simp add: empty_matrix_def alloc_def row_def put_def get_def)
  have one: "rows_are_one_array m'"
    if "map_matrix this callback g = Some (Inr (m', g'))
        \<or> scalar this k g = Some (Inr (m', g'))
        \<or> add this other g = Some (Inr (m', g'))
        \<or> identity n g = Some (Inr (m', g'))"
    using built_on_empty[OF that] by (auto simp: rows_are_one_array_replicate)
  have same: "row m' r1 = row m' r3 \<and> get m' r1 c' g' = get m' r3 c' g'"
    if "rows_are_one_array m'" and "r1 < rowCount m' \<and> r3 < rowCount m'"
  proof -
    have "data m' ! r1 = data m' ! r3" and "r1 < length (data m')" and "r3 < length (data m')"
      using that rows_are_one_array_nth[of m' r1 r3] by (simp_all add: rowCount_def)
    then show ?thesis by (simp add: row_def get_def)
  qed
  from first one same show ?thesis by blast
qed

theorem empty_rows_are_one_array_witness:
  "(case empty_matrix 2 1 [] of
      (m, h0) \<Rightarrow>
        row m 0 = row m 1
        \<and> (\<exists>h1. put m 0 0 (Num 5) h0 = Inr h1 \<and> get m 1 0 h1 = Inr (Num 5)))
   \<and> scalar (Matrix [0, 1]) (Num 1) [[Num 1, Num 2], [Num 3, Num 4]]
       = Some (Inr (Matrix [2, 2], [[Num 1, Num 2], [Num 3, Num 4], [Num 3, Num 4]]))
   \<and> rows_are_one_array (Matrix [2, 2])
   \<and> row (Matrix [2, 2]) 0 = row (Matrix [2, 2]) 1
   \<and> get (Matrix [2, 2]) 0 0 [[Num 1, Num 2], [Num 3, Num 4], [Num 3, Num 4]]
       = get (Matrix [2, 2]) 1 0 [[Num 1, Num 2], [Num 3, Num 4], [Num 3, Num 4]]"
proof -
  have s: "scalar (Matrix [0, 1]) (Num 1) [[Num 1, Num 2], [Num 3, Num 4]]
       = Some (Inr (Matrix [2, 2], [[Num 1, Num 2], [Num 3, Num 4], [Num 3, Num 4]]))"
    by code_simp
  have b: "(0::nat) < 2 \<and> (1::nat) < 2 \<and> (0::nat) < 1" by simp
  have r: "(0::nat) < rowCount (Matrix [2, 2]) \<and> 1 < rowCount (Matrix [2, 2])"
    by (simp add: rowCount_def)
  note t = empty_rows_are_one_array[where r = 0 and rows = 2 and ?r2.0 = 1 and c = 0
      and columns = 1 and h = "[]" and v = "Num 5" and this = "Matrix [0, 1]" and k = "Num 1"
      and g = "[[Num 1, Num 2], [Num 3, Num 4]]" and m' = "Matrix [2, 2]"
      and g' = "[[Num 1, Num 2], [Num 3, Num 4], [Num 3, Num 4]]"
      and ?r1.0 = 0 and ?r3.0 = 1 and c' = 0]
  from t[THEN conjunct1] b have p1: "case empty_matrix 2 1 [] of
      (m, h0) \<Rightarrow>
        row m 0 = row m 1
        \<and> (\<exists>h1. put m 0 0 (Num 5) h0 = Inr h1 \<and> get m 1 0 h1 = Inr (Num 5))"
    by (rule mp)
  from t[THEN conjunct2] s have p2: "rows_are_one_array (Matrix [2, 2])
           \<and> ((0::nat) < rowCount (Matrix [2, 2]) \<and> 1 < rowCount (Matrix [2, 2]) \<longrightarrow>
                row (Matrix [2, 2]) 0 = row (Matrix [2, 2]) 1
                \<and> get (Matrix [2, 2]) 0 0 [[Num 1, Num 2], [Num 3, Num 4], [Num 3, Num 4]]
                    = get (Matrix [2, 2]) 1 0 [[Num 1, Num 2], [Num 3, Num 4], [Num 3, Num 4]])"
    by simp
  from p1 p2 s r show ?thesis by simp
qed

section \<open>Addition, the identity matrix and scalar multiples\<close>

text \<open>
  What \<open>scalar\<close>, \<open>identity\<close> and \<open>add\<close> return in general: every row of the result is the one
  array written last, which holds the images of the last row; in \<open>add\<close> the receiver's cells
  do not occur.
\<close>

lemma scalar_last_row:
  assumes "valid this h" and "columnCount this h = Inr n"
    and "\<And>x. x < rowCount this \<Longrightarrow> n \<le> length (h ! (data this ! x))"
  shows "scalar this k h
         = Some (Inr (Matrix (replicate (rowCount this) (length h)),
                      h @ [map (\<lambda>y. js_mul k (h ! (data this ! (rowCount this - 1)) ! y)) [0..<n]]))"
  unfolding scalar_def
  by (rule map_matrix_last_row[where f = "\<lambda>v x y. js_mul k v"]) (use assms in simp_all)

lemma identity_last_row:
  assumes "0 < n"
  shows "identity n h
         = Some (Inr (Matrix (replicate n (length h + 1)),
                      h @ [replicate n (Num 0),
                           map (\<lambda>y. if n - 1 = y then Num 1 else Num 0) [0..<n]]))"
proof -
  let ?idm = "Matrix (replicate n (length h))" and ?h0 = "h @ [replicate n (Num 0)]"
  have v: "valid ?idm ?h0" by (simp add: valid_def list_all_iff)
  have c: "columnCount ?idm ?h0 = Inr n"
    using assms by (cases n) (simp_all add: columnCount_def)
  have l: "n \<le> length (?h0 ! (data ?idm ! x))" if "x < rowCount ?idm" for x
    using that by (simp add: rowCount_def)
  have "map_matrix ?idm (\<lambda>_ x y h'. Inr (if x = y then Num 1 else Num 0)) ?h0
        = Some (Inr (Matrix (replicate (rowCount ?idm) (length ?h0)),
                     ?h0 @ [map (\<lambda>y. if rowCount ?idm - 1 = y then Num 1 else Num 0) [0..<n]]))"
    by (rule map_matrix_last_row[where f = "\<lambda>v x y. if x = y then Num 1 else Num 0"])
       (use v c l in simp_all)
  then show ?thesis
    by (simp add: identity_def empty_matrix_def alloc_def rowCount_def)
qed

lemma add_last_row:
  assumes "valid this h" and vm: "valid matrix h" and rows: "rowCount this = rowCount matrix"
    and n: "columnCount this h = Inr n" and nm: "columnCount matrix h = Inr n"
    and long: "\<And>x. x < rowCount matrix \<Longrightarrow> n \<le> length (h ! (data matrix ! x))"
  shows "add this matrix h
         = Some (Inr (Matrix (replicate (rowCount this) (length h + 1)),
                      h @ [replicate n (Num 0),
                           map (\<lambda>y. js_add (Num 0) (h ! (data matrix ! (rowCount this - 1)) ! y))
                             [0..<n]]))"
proof -
  let ?idm = "Matrix (replicate (rowCount this) (length h))" and ?h0 = "h @ [replicate n (Num 0)]"
  let ?cb = "\<lambda>v x y h'. case get matrix x y h' of Inl e \<Rightarrow> Inl e | Inr b \<Rightarrow> Inr (js_add v b)"
  have pos: "0 < rowCount this"
    using n by (cases "data this") (simp_all add: columnCount_def rowCount_def)
  have v: "valid ?idm ?h0" by (simp add: valid_def list_all_iff)
  have c: "columnCount ?idm ?h0 = Inr n"
    using pos by (cases "rowCount this") (simp_all add: columnCount_def)
  have l: "n \<le> length (?h0 ! (data ?idm ! x))" if "x < rowCount ?idm" for x
    using that by (simp add: rowCount_def)
  have g: "?cb v x y (?h0 @ [r]) = Inr (js_add v (h ! (data matrix ! x) ! y))"
    if "x < rowCount ?idm" and "y < n" for v x y r
  proof -
    have "x < rowCount matrix" using that(1) rows by (simp add: rowCount_def)
    then have "get matrix x y h = Inr (h ! (data matrix ! x) ! y)"
      using long[of x] that(2) by (simp add: get_def rowCount_def)
    moreover have "get matrix x y (?h0 @ [r]) = get matrix x y h"
      using get_append[OF vm, of x y "[replicate n (Num 0), r]"] by simp
    ultimately show ?thesis by simp
  qed
  have "map_matrix ?idm ?cb ?h0
        = Some (Inr (Matrix (replicate (rowCount ?idm) (length ?h0)),
                     ?h0 @ [map (\<lambda>y. js_add (?h0 ! (data ?idm ! (rowCount ?idm - 1)) ! y)
                                        (h ! (data matrix ! (rowCount ?idm - 1)) ! y)) [0..<n]]))"
    by (rule map_matrix_last_row[where f = "\<lambda>v x y. js_add v (h ! (data matrix ! x) ! y)"])
       (use v c l g in simp_all)
  moreover have "map (\<lambda>y. js_add (?h0 ! (data ?idm ! (rowCount ?idm - 1)) ! y)
                                        (h ! (data matrix ! (rowCount ?idm - 1)) ! y)) [0..<n]
         = map (\<lambda>y. js_add (Num 0) (h ! (data matrix ! (rowCount this - 1)) ! y)) [0..<n]"
    using pos by (simp add: rowCount_def)
  ultimately show ?thesis
    using rows n nm by (simp add: add_def empty_matrix_def alloc_def rowCount_def)
qed

text \<open>The size test of \<open>add\<close>.\<close>

lemma add_size_mismatch:
  assumes "rowCount this \<noteq> rowCount matrix
           \<or> (\<exists>n n'. columnCount this h = Inr n \<and> columnCount matrix h = Inr n' \<and> n \<noteq> n')"
  shows "add this matrix h = Some (Inl (RangeError ''Matricies must be the same size''))"
  using assms by (auto simp: add_def)

text \<open>
  Claim C2: \<open>A.add(B)\<close> fails exactly when the dimensions differ, and otherwise cell (r,c) of
  the result is \<open>A.get(r,c) + B.get(r,c)\<close>. The code maps over a fresh zero matrix instead of
  over \<open>A\<close>: with \<open>A = [[1]]\<close> (array 0) and \<open>B = [[2]]\<close> (array 1) the result holds 2 in cell
  (0,0), not 3.
\<close>

theorem add_returns_second_operand:
  "add (Matrix [0]) (Matrix [1]) [[Num 1], [Num 2]]
     = Some (Inr (Matrix [3], [[Num 1], [Num 2], [Num 0], [Num 2]]))
   \<and> get (Matrix [3]) 0 0 [[Num 1], [Num 2], [Num 0], [Num 2]] = Inr (Num 2)"
  by code_simp

text \<open>
  Claim C3: for a square matrix \<open>M\<close> of size \<open>n\<close>, \<open>identity(n).multiply(M)\<close> and
  \<open>M.multiply(identity(n))\<close> equal \<open>M\<close>. In the code \<open>identity(2)\<close> is built on
  \<open>Matrix.empty\<close>, whose rows are one array, and comes out as \<open>[[0,1],[0,1]]\<close>; with
  \<open>M = [[1,2],[3,4]]\<close> (arrays 0 and 1) the products are \<open>[[3,4],[3,4]]\<close> and
  \<open>[[0,3],[0,7]]\<close>.
\<close>

theorem identity_2_rows_are_equal:
  "identity 2 [[Num 1, Num 2], [Num 3, Num 4]]
     = Some (Inr (Matrix [3, 3],
                  [[Num 1, Num 2], [Num 3, Num 4], [Num 0, Num 0], [Num 0, Num 1]]))
   \<and> map_sum id (\<lambda>(p, h'). contents p h')
        (multiply (Matrix [3, 3]) (Matrix [0, 1])
           [[Num 1, Num 2], [Num 3, Num 4], [Num 0, Num 0], [Num 0, Num 1]])
     = Inr [[Num 3, Num 4], [Num 3, Num 4]]
   \<and> map_sum id (\<lambda>(p, h'). contents p h')
        (multiply (Matrix [0, 1]) (Matrix [3, 3])
           [[Num 1, Num 2], [Num 3, Num 4], [Num 0, Num 0], [Num 0, Num 1]])
     = Inr [[Num 0, Num 3], [Num 0, Num 7]]"
  by code_simp

text \<open>
  Claim C4: \<open>M.scalar(1)\<close> equals \<open>M\<close> cell by cell, and \<open>M.scalar(0)\<close> is all zero with the
  dimensions of \<open>M\<close>. In the code the result of \<open>scalar\<close> is built on \<open>Matrix.empty\<close>, so every
  row of it is the array written last: \<open>[[1,2],[3,4]].scalar(1)\<close> is \<open>[[3,4],[3,4]]\<close>.
\<close>

theorem scalar_1_copies_last_row:
  "map_option (map_sum id (\<lambda>(p, h'). contents p h'))
     (scalar (Matrix [0, 1]) (Num 1) [[Num 1, Num 2], [Num 3, Num 4]])
   = Some (Inr [[Num 3, Num 4], [Num 3, Num 4]])"
  by code_simp

section \<open>The determinant\<close>

lemma determinant_not_square:
  assumes "columnCount this h = Inr n" and "rowCount this \<noteq> n"
  shows "determinant this h = Inl (RangeError ''Matrix must be square'')"
  using assms by (simp add: determinant_def)

lemma determinant_size_1:
  assumes "data this = [a]" and "h ! a = [x]"
  shows "determinant this h = Inr x"
  using assms by (simp add: determinant_def columnCount_def rowCount_def get_def)

lemma determinant_size_2:
  assumes "data this = [r0, r1]" and "h ! r0 = [a, b]" and "h ! r1 = [c, d]"
  shows "determinant this h = Inr (js_sub (js_mul a d) (js_mul b c))"
  using assms by (simp add: determinant_def columnCount_def rowCount_def get_def)

lemma determinant_examples:
  "determinant (Matrix [0, 1]) [[Num 1, Num 2], [Num 3, Num 4]] = Inr (Num (- 2))"
  "determinant (Matrix [0]) [[Num 5]] = Inr (Num 5)"
  by (simp_all add: determinant_def columnCount_def rowCount_def get_def)

text \<open>
  Claim C8: \<open>determinant()\<close> fails with a not-square error when the counts differ, and on a
  square matrix returns \<open>NaN\<close> for size 0, the sole element for size 1 and \<open>a*d - b*c\<close> for
  size 2. Sizes 1 and 2 are the lemmas above. The branch \<open>case 0: return NaN\<close> is never
  reached: a matrix of size 0 has no first row, and the squareness test reads
  \<open>columnCount\<close> first, which throws a \<open>TypeError\<close>.
\<close>

theorem determinant_size_0_throws: "determinant (Matrix []) h = Inl TypeError"
  by (simp add: determinant_def columnCount_def)

section \<open>The power\<close>

text \<open>
  On cells that are numbers \<open>multiply\<close> computes the standard product: cell (r,c) is the sum
  of the products of row \<open>r\<close> of the receiver and column \<open>c\<close> of the argument.
\<close>

lemma multiply_cell_sum:
  assumes "\<And>i. i < ac \<Longrightarrow> js_index (h ! (data this ! r)) i = Num (a i)"
    and "\<And>i. i < ac \<Longrightarrow> js_index (h ! (data matrix ! i)) c = Num (b i)"
  shows "multiply_cell this matrix h ac r c = Num (\<Sum>i<ac. a i * b i)"
  using assms unfolding multiply_cell_def
  by (induction ac) simp_all

lemma pow_loop_counts:
  assumes "amount = 1 + int k"
  shows "pow_loop this idm amount h = Some (multiply_times k this idm h)"
  using assms
proof (induction k arbitrary: amount idm h)
  case 0
  then show ?case by (subst pow_loop.simps) simp
next
  case (Suc k)
  have a: "amount \<noteq> 1" "amount - 1 = 1 + int k"
    using Suc.prems by simp_all
  show ?case
    by (subst pow_loop.simps) (simp add: a(1) Suc.IH[OF a(2)] split: sum.split prod.split)
qed

lemma multiply_defined:
  assumes "columnCount idm h = Inr (rowCount this)" and "columnCount this h = Inr bc"
  shows "multiply idm this h =
           Inr (Matrix [length h ..< length h + rowCount idm],
                h @ map (multiply_row idm this h (rowCount this) bc) [0..<rowCount idm])"
  using assms by (simp add: multiply_def)

lemma columnCount_product:
  assumes "0 < n"
  shows "columnCount (Matrix [length h ..< length h + n])
           (h @ map (multiply_row idm this h ac bc) [0..<n]) = Inr bc"
proof -
  have "[length h ..< length h + n] = length h # [Suc (length h) ..< length h + n]"
    using assms by (simp add: upt_conv_Cons)
  moreover have "map (multiply_row idm this h ac bc) [0..<n] ! 0 = multiply_row idm this h ac bc 0"
    using assms by (simp add: nth_map del: upt_Suc)
  ultimately show ?thesis
    using assms by (simp add: columnCount_def nth_append multiply_row_def del: upt_Suc)
qed

lemma pow_loop_never_returns:
  assumes ret: "pow_loop this idm amount h = Some res"
    and "amount \<le> 0" and "valid this h" and "columnCount this h = Inr (rowCount this)"
    and "columnCount idm h = Inr (rowCount this)"
  shows False
  using assms(2-)
proof (induction rule: pow_loop.raw_induct[OF _ ret])
  case (1 pow_loop' this idm amount h res)
  have rows: "0 < rowCount idm"
    using "1.prems"(4) by (cases "data idm") (simp_all add: columnCount_def rowCount_def)
  let ?idm' = "Matrix [length h ..< length h + rowCount idm]"
  let ?h' = "h @ map (multiply_row idm this h (rowCount this) (rowCount this)) [0..<rowCount idm]"
  have m: "multiply idm this h = Inr (?idm', ?h')"
    using "1.prems"(4,3) by (rule multiply_defined)
  have "amount - 1 \<noteq> 0" using "1.prems"(1) by simp
  with "1.hyps" m have rec: "pow_loop' this ?idm' (amount - 1) ?h' = Some res"
    by simp
  have "amount - 1 \<le> 0" using "1.prems"(1) by simp
  moreover have "valid this ?h'" using "1.prems"(2) by (rule valid_append)
  moreover have "columnCount this ?h' = Inr (rowCount this)"
    using "1.prems"(2,3) by (simp add: columnCount_append)
  moreover have "columnCount ?idm' ?h' = Inr (rowCount this)"
    using rows by (rule columnCount_product)
  ultimately show ?case using "1.IH"[OF rec] by blast
qed

lemma pow_loop_diverges:
  assumes "amount \<le> 0" and "valid this h" and "columnCount this h = Inr (rowCount this)"
    and "columnCount idm h = Inr (rowCount this)"
  shows "pow_loop this idm amount h = None"
proof (cases "pow_loop this idm amount h")
  case None
  then show ?thesis .
next
  case (Some res)
  from pow_loop_never_returns[OF Some assms] show ?thesis ..
qed

lemma pow_diverges:
  assumes "amount \<le> 0" and "valid this h" and "columnCount this h = Inr (rowCount this)"
  shows "pow this amount h = None"
  using assms by (simp add: pow_def pow_loop_diverges)

text \<open>
  Claim C6: for a square matrix and every amount \<open>\<le> 0\<close>, \<open>pow(amount)\<close> terminates, multiplies
  zero times and returns the matrix unchanged. In the code \<open>while (--amount)\<close> tests the
  decremented amount against 0 only: from an amount \<open>\<le> 0\<close> it is negative at once and stays
  so, every multiplication of square matrices succeeds, and the loop never ends (lemma
  \<open>pow_diverges\<close>). On \<open>[[1]]\<close> with amount 0:
\<close>

theorem pow_0_never_returns: "pow (Matrix [0]) 0 [[Num 1]] = None"
  by (rule pow_diverges) (simp_all add: valid_def columnCount_def rowCount_def)

lemma multiply_times_square:
  assumes "valid this h" and "columnCount this h = Inr (rowCount this)"
    and "columnCount idm h = Inr (rowCount this)"
  shows "\<exists>m' h'. multiply_times k this idm h = Inr (m', h')
           \<and> length h' = length h + k * rowCount idm"
  using assms
proof (induction k arbitrary: idm h)
  case 0
  then show ?case by simp
next
  case (Suc k)
  have rows: "0 < rowCount idm"
    using Suc.prems(3) by (cases "data idm") (simp_all add: columnCount_def rowCount_def)
  let ?idm' = "Matrix [length h ..< length h + rowCount idm]"
  let ?h' = "h @ map (multiply_row idm this h (rowCount this) (rowCount this)) [0..<rowCount idm]"
  have m: "multiply idm this h = Inr (?idm', ?h')"
    using Suc.prems(3,2) by (rule multiply_defined)
  have "valid this ?h'" using Suc.prems(1) by (rule valid_append)
  moreover have "columnCount this ?h' = Inr (rowCount this)"
    using Suc.prems(1,2) by (simp add: columnCount_append)
  moreover have "columnCount ?idm' ?h' = Inr (rowCount this)"
    using rows by (rule columnCount_product)
  ultimately obtain m' h' where
    "multiply_times k this ?idm' ?h' = Inr (m', h')"
    "length h' = length ?h' + k * rowCount ?idm'"
    using Suc.IH by blast
  with m show ?case by (simp add: rowCount_def)
qed

text \<open>
  Claim C7: for a square matrix \<open>M\<close>, \<open>pow(1)\<close> returns \<open>M\<close> itself with no multiplication (the
  heap is the one before the call), \<open>pow(2)\<close> is \<open>M.multiply(M)\<close>, and for an amount \<open>\<ge> 2\<close>
  \<open>pow(amount)\<close> returns after exactly \<open>amount - 1\<close> multiplications by \<open>M\<close>, which is the power
  of the specification; each multiplication allocates one array per row, so for allocated
  rows the heap has grown by \<open>(amount - 1) * rowCount\<close> arrays.
\<close>

theorem pow_counts_multiplications:
  assumes "columnCount this h = Inr (rowCount this)"
  shows "pow this 1 h = Some (Inr (this, h))
       \<and> pow this 2 h = Some (multiply this this h)
       \<and> (2 \<le> amount \<longrightarrow>
            pow this amount h = Some (multiply_times (nat (amount - 1)) this this h)
            \<and> (valid this h \<longrightarrow>
                 (\<exists>m' h'. pow this amount h = Some (Inr (m', h'))
                    \<and> length h' = length h + nat (amount - 1) * rowCount this)))"
proof (intro conjI impI)
  have loop: "\<And>k. pow this (1 + int k) h = Some (multiply_times k this this h)"
    using assms by (simp add: pow_def pow_loop_counts)
  from loop[of 0] show "pow this 1 h = Some (Inr (this, h))" by simp
  from loop[of 1] show "pow this 2 h = Some (multiply this this h)"
    by (simp split: sum.split)
  assume a: "2 \<le> amount"
  then have "amount = 1 + int (nat (amount - 1))" by simp
  with loop[of "nat (amount - 1)"]
  show p: "pow this amount h = Some (multiply_times (nat (amount - 1)) this this h)"
    by simp
  assume "valid this h"
  with assms p multiply_times_square[of this h this "nat (amount - 1)"]
  show "\<exists>m' h'. pow this amount h = Some (Inr (m', h'))
          \<and> length h' = length h + nat (amount - 1) * rowCount this"
    by auto
qed

theorem pow_counts_multiplications_witness:
  "columnCount (Matrix [0, 1]) [[Num 1, Num 2], [Num 3, Num 4]] = Inr (rowCount (Matrix [0, 1]))
   \<and> pow (Matrix [0, 1]) 1 [[Num 1, Num 2], [Num 3, Num 4]]
       = Some (Inr (Matrix [0, 1], [[Num 1, Num 2], [Num 3, Num 4]]))
   \<and> pow (Matrix [0, 1]) 3 [[Num 1, Num 2], [Num 3, Num 4]]
       = Some (Inr (Matrix [4, 5],
             [[Num 1, Num 2], [Num 3, Num 4], [Num 7, Num 10], [Num 15, Num 22],
              [Num 37, Num 54], [Num 81, Num 118]]))"
proof -
  have sq: "columnCount (Matrix [0, 1]) [[Num 1, Num 2], [Num 3, Num 4]]
              = Inr (rowCount (Matrix [0, 1]))"
    by (simp add: columnCount_def rowCount_def)
  have e: "multiply_times (nat (3 - 1)) (Matrix [0, 1]) (Matrix [0, 1])
             [[Num 1, Num 2], [Num 3, Num 4]]
           = Inr (Matrix [4, 5],
             [[Num 1, Num 2], [Num 3, Num 4], [Num 7, Num 10], [Num 15, Num 22],
              [Num 37, Num 54], [Num 81, Num 118]])"
    by code_simp
  have "(2::int) \<le> 3" by simp
  with pow_counts_multiplications[OF sq, of 3] sq e show ?thesis by simp
qed

section \<open>Adding a multiple of a row\<close>

lemma addRow_step_row:
  "addRow_step a bs i h = h[a := addRow_cell bs i (h ! a)]"
  by (simp add: addRow_step_def addRow_cell_def)

lemma fold_addRow_step:
  assumes "a < length h"
  shows "fold (addRow_step a bs) is h = h[a := fold (addRow_cell bs) is (h ! a)]"
  using assms
proof (induction "is" arbitrary: h)
  case Nil
  then show ?case by simp
next
  case (Cons i "is")
  have "a < length (addRow_step a bs i h)"
    using Cons.prems by (simp add: addRow_step_row)
  then show ?case
    using Cons.IH[of "addRow_step a bs i h"] Cons.prems
    by (simp add: addRow_step_row)
qed

lemma fold_addRow_cell:
  assumes "k \<le> length bs"
  shows "fold (addRow_cell bs) [0..<k] xs
           = map (\<lambda>i. js_add (js_index xs i) (bs ! i)) [0..<k] @ drop k xs"
  using assms
proof (induction k)
  case 0
  then show ?case by simp
next
  case (Suc k)
  let ?p = "map (\<lambda>i. js_add (js_index xs i) (bs ! i)) [0..<k]"
  have f: "fold (addRow_cell bs) [0..<k] xs = ?p @ drop k xs"
    using Suc by simp
  have len: "length ?p = k" by simp
  have idx: "js_index (?p @ drop k xs) k = js_index xs k"
    by (simp add: js_index_def nth_append)
  have b: "js_index bs k = bs ! k" using Suc.prems by (simp add: js_index_def)
  have st: "js_store (?p @ drop k xs) k v = ?p @ [v] @ drop (Suc k) xs" for v
  proof (cases "k < length xs")
    case True
    then have "drop k xs = xs ! k # drop (Suc k) xs" by (simp add: Cons_nth_drop_Suc)
    then show ?thesis using True by (simp add: js_store_def list_update_append)
  next
    case False
    then show ?thesis by (simp add: js_store_def)
  qed
  have "fold (addRow_cell bs) [0..<Suc k] xs
          = addRow_cell bs k (fold (addRow_cell bs) [0..<k] xs)"
    by simp
  also have "\<dots> = addRow_cell bs k (?p @ drop k xs)"
    by (simp only: f)
  also have "\<dots> = ?p @ [js_add (js_index xs k) (bs ! k)] @ drop (Suc k) xs"
    unfolding addRow_cell_def by (simp only: idx b st)
  also have "\<dots> = map (\<lambda>i. js_add (js_index xs i) (bs ! i)) [0..<Suc k] @ drop (Suc k) xs"
    by simp
  finally show ?case .
qed

text \<open>
  Claim C9, as amended: for every matrix with allocated rows and all valid row indices
  \<open>manipulated\<close> and \<open>r2\<close>, \<open>addRow\<close> returns, and the heap after it is the heap before with
  one array replaced, the manipulated row: each cell \<open>i\<close> of it, \<open>i\<close> below the length of the
  source row, holds its old value plus the old value of cell \<open>i\<close> of the source row times
  the factor, the cells from the length of the source row on are the old ones, and there
  are no further cells. For rows of one length, as in a rectangular matrix, the new row is
  exactly the list of these sums. Every other array, so every row stored in another array
  than the manipulated row, is unchanged. On \<open>[[1,2],[3,4]]\<close> with \<open>manipulated = 0\<close> and
  \<open>row2 = [1, -2]\<close> the heap after is \<open>[[-5,-6],[3,4]]\<close>: row 0 is \<open>[-5, -6]\<close> and row 1 is
  \<open>[3, 4]\<close>.
\<close>

theorem addRow_in_place:
  assumes "valid this h" and "manipulated < rowCount this" and "r2 < rowCount this"
  shows "addRow this manipulated r2 f h
           = Inr (h[data this ! manipulated :=
                    map (\<lambda>i. js_add (js_index (h ! (data this ! manipulated)) i)
                                   (js_mul (h ! (data this ! r2) ! i) f))
                      [0..<length (h ! (data this ! r2))]
                    @ drop (length (h ! (data this ! r2))) (h ! (data this ! manipulated))])
       \<and> (\<exists>h'. addRow this manipulated r2 f h = Inr h'
             \<and> length h' = length h
             \<and> h' ! (data this ! manipulated)
                 = map (\<lambda>i. js_add (js_index (h ! (data this ! manipulated)) i)
                                (js_mul (h ! (data this ! r2) ! i) f))
                     [0..<length (h ! (data this ! r2))]
                   @ drop (length (h ! (data this ! r2))) (h ! (data this ! manipulated))
             \<and> length (h' ! (data this ! manipulated))
                 = max (length (h ! (data this ! manipulated))) (length (h ! (data this ! r2)))
             \<and> (length (h ! (data this ! r2)) = length (h ! (data this ! manipulated)) \<longrightarrow>
                  h' ! (data this ! manipulated)
                    = map (\<lambda>i. js_add (h ! (data this ! manipulated) ! i)
                                   (js_mul (h ! (data this ! r2) ! i) f))
                        [0..<length (h ! (data this ! manipulated))])
             \<and> (\<forall>i<length (h ! (data this ! r2)).
                   js_index (h' ! (data this ! manipulated)) i
                     = js_add (js_index (h ! (data this ! manipulated)) i)
                              (js_mul (h ! (data this ! r2) ! i) f))
             \<and> (\<forall>i. length (h ! (data this ! r2)) \<le> i \<longrightarrow>
                   js_index (h' ! (data this ! manipulated)) i
                     = js_index (h ! (data this ! manipulated)) i)
             \<and> (\<forall>a. a \<noteq> data this ! manipulated \<longrightarrow> h' ! a = h ! a)
             \<and> (\<forall>r<rowCount this.
                   data this ! r \<noteq> data this ! manipulated \<longrightarrow>
                     h' ! (data this ! r) = h ! (data this ! r)))"
proof -
  let ?a = "data this ! manipulated"
  let ?src = "h ! (data this ! r2)"
  let ?bs = "map (\<lambda>n. js_mul n f) ?src"
  let ?row = "map (\<lambda>i. js_add (js_index (h ! ?a) i) (js_mul (?src ! i) f)) [0..<length ?src]
                @ drop (length ?src) (h ! ?a)"
  have a: "?a < length h"
    using assms(1,2) by (simp add: valid_def rowCount_def list_all_length)
  have bs: "map (\<lambda>i. js_add (js_index (h ! ?a) i) (?bs ! i)) [0..<length ?src]
              = map (\<lambda>i. js_add (js_index (h ! ?a) i) (js_mul (?src ! i) f)) [0..<length ?src]"
    by simp
  have "addRow this manipulated r2 f h
          = Inr (h[?a := map (\<lambda>i. js_add (js_index (h ! ?a) i) (?bs ! i)) [0..<length ?bs]
                           @ drop (length ?bs) (h ! ?a)])"
    using assms(2,3) a
    by (simp add: addRow_def row_def rowCount_def fold_addRow_step fold_addRow_cell Let_def
             del: map_map)
  then have run: "addRow this manipulated r2 f h = Inr (h[?a := ?row])"
    by (simp only: length_map bs)
  have len: "length (h[?a := ?row]) = length h" by simp
  have at: "(h[?a := ?row]) ! ?a = ?row" using a by simp
  have size: "length ?row = max (length (h ! ?a)) (length ?src)" by simp
  have rect: "?row = map (\<lambda>i. js_add (h ! ?a ! i) (js_mul (?src ! i) f)) [0..<length (h ! ?a)]"
    if "length ?src = length (h ! ?a)"
    using that by (simp add: js_index_def)
  have cells: "js_index ?row i = js_add (js_index (h ! ?a) i) (js_mul (?src ! i) f)"
    if "i < length ?src" for i
    using that by (simp add: js_index_def nth_append)
  have rest: "js_index ?row i = js_index (h ! ?a) i" if "length ?src \<le> i" for i
    using that by (auto simp: js_index_def nth_append)
  have others: "(h[?a := ?row]) ! b = h ! b" if "b \<noteq> ?a" for b
    using that by simp
  have "\<exists>h'. addRow this manipulated r2 f h = Inr h'
             \<and> length h' = length h
             \<and> h' ! ?a = ?row
             \<and> length (h' ! ?a) = max (length (h ! ?a)) (length ?src)
             \<and> (length ?src = length (h ! ?a) \<longrightarrow>
                  h' ! ?a = map (\<lambda>i. js_add (h ! ?a ! i) (js_mul (?src ! i) f))
                              [0..<length (h ! ?a)])
             \<and> (\<forall>i<length ?src.
                   js_index (h' ! ?a) i = js_add (js_index (h ! ?a) i) (js_mul (?src ! i) f))
             \<and> (\<forall>i. length ?src \<le> i \<longrightarrow> js_index (h' ! ?a) i = js_index (h ! ?a) i)
             \<and> (\<forall>b. b \<noteq> ?a \<longrightarrow> h' ! b = h ! b)
             \<and> (\<forall>r<rowCount this. data this ! r \<noteq> ?a \<longrightarrow> h' ! (data this ! r) = h ! (data this ! r))"
  proof (intro exI[of _ "h[?a := ?row]"] conjI allI impI)
    show "addRow this manipulated r2 f h = Inr (h[?a := ?row])" by (rule run)
    show "length (h[?a := ?row]) = length h" by (rule len)
    show "(h[?a := ?row]) ! ?a = ?row" by (rule at)
    show "length ((h[?a := ?row]) ! ?a) = max (length (h ! ?a)) (length ?src)"
      unfolding at by (rule size)
    show "(h[?a := ?row]) ! ?a
            = map (\<lambda>i. js_add (h ! ?a ! i) (js_mul (?src ! i) f)) [0..<length (h ! ?a)]"
      if "length ?src = length (h ! ?a)"
      unfolding at by (rule rect[OF that])
    show "js_index ((h[?a := ?row]) ! ?a) i
            = js_add (js_index (h ! ?a) i) (js_mul (?src ! i) f)"
      if "i < length ?src" for i
      unfolding at by (rule cells[OF that])
    show "js_index ((h[?a := ?row]) ! ?a) i = js_index (h ! ?a) i"
      if "length ?src \<le> i" for i
      unfolding at by (rule rest[OF that])
    show "(h[?a := ?row]) ! b = h ! b" if "b \<noteq> ?a" for b
      using others[OF that] .
    show "(h[?a := ?row]) ! (data this ! r) = h ! (data this ! r)"
      if "r < rowCount this" and "data this ! r \<noteq> ?a" for r
      using others[OF that(2)] .
  qed
  with run show ?thesis by (rule conjI)
qed

theorem addRow_in_place_witness:
  "valid (Matrix [0, 1]) [[Num 1, Num 2], [Num 3, Num 4]]
   \<and> (0::nat) < rowCount (Matrix [0, 1]) \<and> 1 < rowCount (Matrix [0, 1])
   \<and> addRow (Matrix [0, 1]) 0 1 (Num (- 2)) [[Num 1, Num 2], [Num 3, Num 4]]
       = Inr [[Num (- 5), Num (- 6)], [Num 3, Num 4]]
   \<and> contents (Matrix [0, 1]) [[Num (- 5), Num (- 6)], [Num 3, Num 4]]
       = [[Num (- 5), Num (- 6)], [Num 3, Num 4]]"
proof -
  let ?m = "Matrix [0, 1]" and ?h = "[[Num 1, Num 2], [Num 3, Num 4]]"
  have v: "valid ?m ?h" by (simp add: valid_def)
  have r: "0 < rowCount ?m" "1 < rowCount ?m" by (simp_all add: rowCount_def)
  note t = addRow_in_place[OF v r, of "Num (- 2)", THEN conjunct1]
  have run: "addRow ?m 0 1 (Num (- 2)) ?h = Inr [[Num (- 5), Num (- 6)], [Num 3, Num 4]]"
    by (subst t) (simp add: js_index_def upt_rec)
  have c: "contents ?m [[Num (- 5), Num (- 6)], [Num 3, Num 4]]
             = [[Num (- 5), Num (- 6)], [Num 3, Num 4]]"
    by (simp add: contents_def)
  from v r run c show ?thesis by simp
qed

text \<open>
  Claim C9 as stated (every other row is unchanged, for every matrix) fails when another
  row index refers to the array of the manipulated row: both rows of this matrix are the
  array 0, and \<open>addRow({manipulated: 0, row2: [1, 1]})\<close> turns cell (1,0) from 1 into 2.
\<close>

theorem addRow_shared_rows_counterexample:
  "valid (Matrix [0, 0]) [[Num 1]]
   \<and> addRow (Matrix [0, 0]) 0 1 (Num 1) [[Num 1]] = Inr [[Num 2]]
   \<and> get (Matrix [0, 0]) 1 0 [[Num 1]] = Inr (Num 1)
   \<and> get (Matrix [0, 0]) 1 0 [[Num 2]] = Inr (Num 2)"
  by code_simp

section \<open>Rows are aliases, columns are copies\<close>

text \<open>
  Claim C10: \<open>row(n)\<close> returns a live alias into the storage: writing \<open>v\<close> to element \<open>c\<close> of
  the returned array changes what \<open>get(n, c)\<close> returns to \<open>v\<close>. \<open>column(k)\<close> returns a newly
  allocated array holding element \<open>k\<close> of every row: neither the allocation nor any write to
  an element of the returned array changes a cell of the matrix.
\<close>

theorem row_is_alias_column_is_copy:
  assumes "valid this h" and "n < rowCount this" and "c < length (h ! (data this ! n))"
  shows "(\<exists>a. row this n = Some a \<and> get this n c (h[a := js_store (h ! a) c v]) = Inr v)
       \<and> (case column this k h of
            (a', h') \<Rightarrow>
              h' ! a' = map (\<lambda>a. js_index (h ! a) k) (data this)
              \<and> (\<forall>r c'. get this r c' h' = get this r c' h)
              \<and> (\<forall>i w r c'. get this r c' (h'[a' := js_store (h' ! a') i w]) = get this r c' h))"
proof -
  have a: "data this ! n < length h"
    using assms(1,2) by (simp add: valid_def rowCount_def list_all_length)
  have al: "row this n = Some (data this ! n)
      \<and> get this n c (h[data this ! n := js_store (h ! (data this ! n)) c v]) = Inr v"
    using assms(2,3) a by (simp add: row_def rowCount_def get_def js_store_def)
  have rows: "data this ! r < length h" if "r < length (data this)" for r
    using assms(1) that by (simp add: valid_def list_all_length)
  have copy: "get this r c' ((h @ [xs])[length h := ys]) = get this r c' h"
    and same: "get this r c' (h @ [xs]) = get this r c' h" for r c' xs ys
    using rows[of r] by (auto simp: get_def nth_append)
  from al copy same show ?thesis
    by (simp add: column_def alloc_def)
qed

theorem row_is_alias_column_is_copy_witness:
  "valid (Matrix [0, 1]) [[Num 1, Num 2], [Num 3, Num 4]]
   \<and> row (Matrix [0, 1]) 1 = Some 1
   \<and> get (Matrix [0, 1]) 1 0 ([[Num 1, Num 2], [Num 3, Num 4]][1 := js_store [Num 3, Num 4] 0 (Num 9)])
       = Inr (Num 9)
   \<and> column (Matrix [0, 1]) 0 [[Num 1, Num 2], [Num 3, Num 4]]
       = (2, [[Num 1, Num 2], [Num 3, Num 4], [Num 1, Num 3]])
   \<and> get (Matrix [0, 1]) 1 0
        ([[Num 1, Num 2], [Num 3, Num 4], [Num 1, Num 3]][2 := js_store [Num 1, Num 3] 1 (Num 9)])
       = Inr (Num 3)"
proof -
  let ?m = "Matrix [0, 1]" and ?h = "[[Num 1, Num 2], [Num 3, Num 4]]"
  have v: "valid ?m ?h" by (simp add: valid_def)
  have r: "1 < rowCount ?m" by (simp add: rowCount_def)
  have c: "0 < length (?h ! (data ?m ! 1))" by simp
  have col: "column ?m 0 ?h = (2, [[Num 1, Num 2], [Num 3, Num 4], [Num 1, Num 3]])"
    by (simp add: column_def alloc_def js_index_def)
  have g: "get ?m 1 0 ?h = Inr (Num 3)" by (simp add: get_def)
  have rw: "row ?m 1 = Some 1" by (simp add: row_def)
  note t = row_is_alias_column_is_copy[OF v r c, of "Num 9" 0]
  from t rw have p1: "get ?m 1 0 (?h[1 := js_store (?h ! 1) 0 (Num 9)]) = Inr (Num 9)"
    by auto
  from t col have p2: "get ?m 1 0
        ([[Num 1, Num 2], [Num 3, Num 4], [Num 1, Num 3]][2 := js_store ([[Num 1, Num 2], [Num 3, Num 4], [Num 1, Num 3]] ! 2) 1 (Num 9)])
       = get ?m 1 0 ?h"
    by simp
  from v rw p1 col p2 g show ?thesis by simp
qed

end
